theory Spec2Isabelle
  imports Complex_Main
begin

section \<open>The program\<close>

text \<open>
  The notebook \<^verbatim>\<open>107-speech-recognition-quantization-wav2vec2\<close> defines a greedy
  CTC decoder, \<^verbatim>\<open>decode_logits\<close>, and an accumulator of the word error rate, the
  class \<^verbatim>\<open>MetricWER\<close>. Both are embedded here function by function. An exception
  of the Python code is a value of the type \<open>error\<close>.
\<close>

datatype error = ValueError | TypeError | KeyError | AssertionError | ZeroDivisionError

subsection \<open>Strings\<close>

text \<open>
  A Python string is a list of characters, each a code point below 256.
  \<^verbatim>\<open>str.isspace\<close> and \<^verbatim>\<open>str.lower\<close> are written out for these code points.
\<close>

definition isspace :: "char \<Rightarrow> bool" where
  "isspace c =
     (let k = (of_char c :: nat)
      in (9 \<le> k \<and> k \<le> 13) \<or> (28 \<le> k \<and> k \<le> 32) \<or> k = 133 \<or> k = 160)"

definition lower_char :: "char \<Rightarrow> char" where
  "lower_char c =
     (let k = (of_char c :: nat)
      in if (65 \<le> k \<and> k \<le> 90) \<or> (192 \<le> k \<and> k \<le> 222 \<and> k \<noteq> 215)
         then char_of (k + 32) else c)"

definition lower :: "string \<Rightarrow> string" where
  "lower s = map lower_char s"

text \<open>
  \<^verbatim>\<open>s.split()\<close>: the maximal runs of characters that are not whitespace. The scanner
  keeps the word read so far in \<open>cur\<close>.
\<close>

fun split_scan :: "string \<Rightarrow> string \<Rightarrow> string list" where
  "split_scan cur [] = (if cur = [] then [] else [cur])"
| "split_scan cur (c # cs) =
     (if isspace c then (if cur = [] then split_scan [] cs else cur # split_scan [] cs)
      else split_scan (cur @ [c]) cs)"

definition split_ws :: "string \<Rightarrow> string list" where
  "split_ws s = split_scan [] s"

text \<open>\<^verbatim>\<open>s.split(sep)\<close> for a separator of one character: empty fields are kept.\<close>

fun split_on :: "char \<Rightarrow> string \<Rightarrow> string \<Rightarrow> string list" where
  "split_on sep cur [] = [cur]"
| "split_on sep cur (c # cs) =
     (if c = sep then cur # split_on sep [] cs else split_on sep (cur @ [c]) cs)"

definition split_sep :: "string \<Rightarrow> char \<Rightarrow> string list" where
  "split_sep s sep = split_on sep [] s"

fun join :: "string \<Rightarrow> string list \<Rightarrow> string" where
  "join sep [] = []"
| "join sep [w] = w"
| "join sep (w # ws) = w @ sep @ join sep ws"

definition strip :: "string \<Rightarrow> string" where
  "strip s = rev (dropWhile isspace (rev (dropWhile isspace s)))"

subsection \<open>The greedy decoder\<close>

definition alphabet :: "string list" where
  "alphabet =
     [''<pad>'', ''<s>'', ''</s>'', ''<unk>'', ''|'',
      ''e'', ''t'', ''a'', ''o'', ''n'', ''i'', ''h'', ''s'', ''r'', ''d'', ''l'', ''u'',
      ''m'', ''w'', ''c'', ''f'', ''g'', ''y'', ''p'', ''b'', ''v'', ''k'', [CHR 0x27],
      ''x'', ''j'', ''q'', ''z'']"

definition words_delimiter :: string where
  "words_delimiter = ''|''"

definition pad_token :: string where
  "pad_token = ''<pad>''"

text \<open>\<^verbatim>\<open>dict(enumerate(MetricWER.alphabet))\<close>\<close>

definition decoding_vocab :: "nat \<rightharpoonup> string" where
  "decoding_vocab = map_of (enumerate 0 alphabet)"

text \<open>
  A logits matrix is the list of its rows, one row per timestep; the scores are
  finite numbers, modelled by rationals. The empty list is the matrix without timesteps.
  \<^verbatim>\<open>np.argmax(logits, -1)\<close> takes the first index of the largest score of every
  row, and raises \<^verbatim>\<open>ValueError\<close> when the rows have no column (or do not form a
  matrix).
\<close>

fun argmax_scan :: "rat \<Rightarrow> nat \<Rightarrow> nat \<Rightarrow> rat list \<Rightarrow> nat" where
  "argmax_scan best bi k [] = bi"
| "argmax_scan best bi k (x # xs) =
     (if best < x then argmax_scan x k (k + 1) xs else argmax_scan best bi (k + 1) xs)"

fun argmax_row :: "rat list \<Rightarrow> error + nat" where
  "argmax_row [] = Inl ValueError"
| "argmax_row (x # xs) = Inr (argmax_scan x 0 1 xs)"

fun argmax_rows :: "rat list list \<Rightarrow> error + nat list" where
  "argmax_rows [] = Inr []"
| "argmax_rows (r # rs) =
     (case argmax_row r of
        Inl e \<Rightarrow> Inl e
      | Inr k \<Rightarrow> (case argmax_rows rs of Inl e \<Rightarrow> Inl e | Inr ks \<Rightarrow> Inr (k # ks)))"

definition argmax :: "rat list list \<Rightarrow> error + nat list" where
  "argmax logits =
     (if list_ex (\<lambda>r. length r \<noteq> length (hd logits)) logits then Inl ValueError
      else argmax_rows logits)"

text \<open>
  \<^verbatim>\<open>np.squeeze\<close> removes every axis of length one. The vector of one timestep
  becomes an array without axes, and the loop over it raises \<^verbatim>\<open>TypeError\<close>.
\<close>

definition squeeze_iter :: "nat list \<Rightarrow> error + nat list" where
  "squeeze_iter token_ids = (if length token_ids = 1 then Inl TypeError else Inr token_ids)"

text \<open>\<^verbatim>\<open>[decoding_vocab[idx] for idx in token_ids]\<close>\<close>

fun lookup_tokens :: "nat list \<Rightarrow> error + string list" where
  "lookup_tokens [] = Inr []"
| "lookup_tokens (idx # ids) =
     (case decoding_vocab idx of
        None \<Rightarrow> Inl KeyError
      | Some t \<Rightarrow> (case lookup_tokens ids of Inl e \<Rightarrow> Inl e | Inr ts \<Rightarrow> Inr (t # ts)))"

text \<open>
  The first element of every group of \<^verbatim>\<open>itertools.groupby\<close> is the list without
  adjacent duplicates, \<^const>\<open>remdups_adj\<close>.
\<close>

definition decode_tokens :: "string list \<Rightarrow> string" where
  "decode_tokens tokens0 =
     (let tokens = remdups_adj tokens0;
          tokens = filter (\<lambda>t. t \<noteq> pad_token) tokens;
          res_string =
            strip (join [] (map (\<lambda>t. if t \<noteq> words_delimiter then t else '' '') tokens));
          res_string = join '' '' (split_sep res_string CHR '' '');
          res_string = lower res_string
      in res_string)"

definition decode_logits :: "rat list list \<Rightarrow> error + string" where
  "decode_logits logits =
     (case argmax logits of
        Inl e \<Rightarrow> Inl e
      | Inr ids \<Rightarrow>
          (case squeeze_iter ids of
             Inl e \<Rightarrow> Inl e
           | Inr token_ids \<Rightarrow>
               (case lookup_tokens token_ids of
                  Inl e \<Rightarrow> Inl e
                | Inr tokens \<Rightarrow> Inr (decode_tokens tokens))))"


text \<open>A row in which symbol \<open>k\<close> scores 1 and the other 31 symbols score 0.\<close>

definition one_hot :: "nat \<Rightarrow> rat list" where
  "one_hot k = (replicate 32 0)[k := 1]"

subsection \<open>The edit-distance table\<close>

text \<open>
  \<^verbatim>\<open>MetricWER._editdistance_eval(source, target)\<close> fills a NumPy table of
  \<open>(n + 1) \<times> (m + 1)\<close> integers. The table is a list of rows; every index the code reads
  or writes is inside the table by construction of the two \<^verbatim>\<open>range\<close> loops. The
  entries are at most \<open>max n m\<close>, so the 64-bit cells never wrap and are modelled by
  \<open>int\<close>.
\<close>

definition zeros :: "nat \<Rightarrow> nat \<Rightarrow> int list list" where
  "zeros r c = replicate r (replicate c 0)"

definition arange :: "nat \<Rightarrow> nat \<Rightarrow> int list" where
  "arange a b = map int [a..<b]"

text \<open>\<^verbatim>\<open>distance[:, c] = vals\<close> and \<^verbatim>\<open>distance[r, :] = vals\<close>.\<close>

definition set_col :: "int list list \<Rightarrow> nat \<Rightarrow> int list \<Rightarrow> int list list" where
  "set_col d c vals = map (\<lambda>(row, v). row[c := v]) (zip d vals)"

definition set_row :: "int list list \<Rightarrow> nat \<Rightarrow> int list \<Rightarrow> int list list" where
  "set_row d r vals = d[r := vals]"

text \<open>The body of the inner loop: one cell of the table.\<close>

definition cell_update :: "'a list \<Rightarrow> 'a list \<Rightarrow> nat \<Rightarrow> nat \<Rightarrow> int list list \<Rightarrow> int list list" where
  "cell_update source target i j distance =
     (let cost = (if source ! (i - 1) = target ! (j - 1) then 0 else 1);
          v = min (distance ! (i - 1) ! j + 1)
                (min (distance ! i ! (j - 1) + 1)
                     (distance ! (i - 1) ! (j - 1) + cost))
      in distance[i := (distance ! i)[j := v]])"

definition fill_row :: "'a list \<Rightarrow> 'a list \<Rightarrow> nat \<Rightarrow> int list list \<Rightarrow> int list list" where
  "fill_row source target i distance =
     fold (cell_update source target i) [1..<length target + 1] distance"

definition editdistance_eval :: "'a list \<Rightarrow> 'a list \<Rightarrow> int" where
  "editdistance_eval source target =
     (let n = length source; m = length target;
          distance = zeros (n + 1) (m + 1);
          distance = set_col distance 0 (arange 0 (n + 1));
          distance = set_row distance 0 (arange 0 (m + 1));
          distance = fold (fill_row source target) [1..<n + 1] distance
      in distance ! n ! m)"

subsection \<open>The accumulator\<close>

text \<open>
  \<^verbatim>\<open>_sum_score\<close> is the Python integer 0 after \<^verbatim>\<open>__init__\<close> and
  \<^verbatim>\<open>reset\<close>, and a NumPy integer once a distance has been added to it;
  \<^verbatim>\<open>_sum_words\<close> is always a Python integer. The two kinds of integer divide
  differently by zero: Python raises \<^verbatim>\<open>ZeroDivisionError\<close>, NumPy warns and
  returns an infinity or NaN. A finite quotient is modelled by the exact rational.
\<close>

datatype intval = PyInt int | NpInt int

fun int_of :: "intval \<Rightarrow> int" where
  "int_of (PyInt k) = k"
| "int_of (NpInt k) = k"

datatype score = IntVal int | Float rat | PosInf | NegInf | NaN

definition np_truediv :: "int \<Rightarrow> int \<Rightarrow> score" where
  "np_truediv c w =
     (if w \<noteq> 0 then Float (of_int c / of_int w)
      else if c = 0 then NaN else if 0 < c then PosInf else NegInf)"

definition py_truediv :: "int \<Rightarrow> int \<Rightarrow> error + score" where
  "py_truediv c w = (if w = 0 then Inl ZeroDivisionError else Inr (Float (of_int c / of_int w)))"

fun truediv :: "intval \<Rightarrow> int \<Rightarrow> error + score" where
  "truediv (PyInt c) w = py_truediv c w"
| "truediv (NpInt c) w = Inr (np_truediv c w)"

record metric =
  sum_score :: intval
  sum_words :: int
  cur_score :: score

text \<open>\<^verbatim>\<open>self._name\<close> is set by \<^verbatim>\<open>__init__\<close> and never assigned again.\<close>

definition name :: string where
  "name = ''WER''"

definition init :: metric where
  "init = \<lparr>sum_score = PyInt 0, sum_words = 0, cur_score = IntVal 0\<rparr>"

definition value_prop :: "metric \<Rightarrow> string \<rightharpoonup> score" where
  "value_prop s = [name \<mapsto> cur_score s]"

definition avg_value :: "metric \<Rightarrow> error + (string \<rightharpoonup> score)" where
  "avg_value s =
     (if sum_words s \<noteq> 0
      then (case truediv (sum_score s) (sum_words s) of
              Inl e \<Rightarrow> Inl e
            | Inr q \<Rightarrow> Inr [name \<mapsto> q])
      else Inr [name \<mapsto> IntVal 0])"

definition reset :: "metric \<Rightarrow> metric" where
  "reset s = s\<lparr>sum_score := PyInt 0, sum_words := 0\<rparr>"

text \<open>
  \<^verbatim>\<open>_get_metric_per_sample(self, annotation, prediction)\<close> returns its result and
  the accumulator as it leaves it. The distance is a NumPy integer, so neither division
  raises.
\<close>

definition get_metric_per_sample :: "metric \<Rightarrow> string \<Rightarrow> string \<Rightarrow> score \<times> metric" where
  "get_metric_per_sample s0 annotation prediction =
     (let cur_score = editdistance_eval (split_ws annotation) (split_ws prediction);
          cur_words = int (length (split_ws annotation));
          s = s0\<lparr>sum_score := NpInt (int_of (sum_score s0) + cur_score)\<rparr>;
          s = s\<lparr>sum_words := sum_words s + cur_words\<rparr>;
          s = s\<lparr>cur_score := np_truediv cur_score cur_words\<rparr>;
          result = (if cur_words \<noteq> 0 then np_truediv cur_score cur_words else IntVal 0)
      in (result, s))"

text \<open>\<^verbatim>\<open>[decode_logits(i) for i in output]\<close>: the first exception ends the call.\<close>

fun decode_all :: "rat list list list \<Rightarrow> error + string list" where
  "decode_all [] = Inr []"
| "decode_all (i # output) =
     (case decode_logits i of
        Inl e \<Rightarrow> Inl e
      | Inr d \<Rightarrow> (case decode_all output of Inl e \<Rightarrow> Inl e | Inr ds \<Rightarrow> Inr (d # ds)))"

text \<open>
  \<^verbatim>\<open>update(self, output, target)\<close> returns the exception it raised, if any, and the
  accumulator after the call.
\<close>

definition update :: "metric \<Rightarrow> rat list list list \<Rightarrow> string list \<Rightarrow> error option \<times> metric" where
  "update s output target0 =
     (case decode_all output of
        Inl e \<Rightarrow> (Some e, s)
      | Inr decoded \<Rightarrow>
          (let target = map lower target0
           in if length output \<noteq> length target then (Some AssertionError, s)
              else (None,
                    fold (\<lambda>i s. snd (get_metric_per_sample s (decoded ! i) (target ! i)))
                      [0..<length output] s)))"

section \<open>The reference edit distance\<close>

text \<open>
  The textbook recursion on two lists, unit cost for insertion, deletion and
  substitution. It is the reference the table is compared with.
\<close>

fun lev :: "'a list \<Rightarrow> 'a list \<Rightarrow> nat" where
  "lev [] ys = length ys"
| "lev xs [] = length xs"
| "lev (x # xs) (y # ys) =
     min (lev xs (y # ys) + 1)
       (min (lev (x # xs) ys + 1) (lev xs ys + (if x = y then 0 else 1)))"

text \<open>The value cell \<open>(r, c)\<close> must hold: the distance of the two prefixes.\<close>

definition prefix_lev :: "'a list \<Rightarrow> 'a list \<Rightarrow> nat \<Rightarrow> nat \<Rightarrow> int" where
  "prefix_lev source target r c = int (lev (rev (take r source)) (rev (take c target)))"

text \<open>
  The loop invariant: the table has its shape, column 0 is initialised, the rows
  before \<open>i\<close> are complete and row \<open>i\<close> is complete before column \<open>j\<close>.
\<close>

definition table_ok :: "'a list \<Rightarrow> 'a list \<Rightarrow> int list list \<Rightarrow> nat \<Rightarrow> nat \<Rightarrow> bool" where
  "table_ok source target d i j \<longleftrightarrow>
     length d = length source + 1 \<and>
     (\<forall>r \<le> length source. length (d ! r) = length target + 1) \<and>
     (\<forall>r \<le> length source. d ! r ! 0 = int r) \<and>
     (\<forall>r < i. \<forall>c \<le> length target. d ! r ! c = prefix_lev source target r c) \<and>
     (\<forall>c < j. i \<le> length source \<longrightarrow> d ! i ! c = prefix_lev source target i c)"

section \<open>The table computes the reference distance\<close>

subsection \<open>Properties of the reference recursion\<close>

lemma lev_Nil2 [simp]: "lev xs [] = length xs"
  by (cases xs) simp_all

lemma lev_sym: "lev xs ys = lev ys xs"
proof (induction xs ys rule: lev.induct)
  case (3 x xs y ys)
  have "(x = y) = (y = x)" by auto
  with 3 show ?case by (simp add: min.left_commute)
qed simp_all

lemma lev_Cons1_le: "lev (x # xs) ys \<le> lev xs ys + 1"
  by (cases ys) simp_all

lemma lev_Cons2_le: "lev xs (y # ys) \<le> lev xs ys + 1"
  by (cases xs) simp_all

lemma lev_Cons_Cons_le: "lev (x # xs) (y # ys) \<le> lev xs ys + (if x = y then 0 else 1)"
  by simp

lemma lev_length_le: "lev xs ys \<le> length xs + length ys"
proof (induction xs ys rule: lev.induct)
  case (3 x xs y ys)
  have "lev (x # xs) (y # ys) \<le> lev xs (y # ys) + 1"
    by (rule lev_Cons1_le)
  with 3 show ?case by simp
qed simp_all

lemma length_le_lev: "length ys \<le> length xs + lev xs ys"
proof (induction xs ys rule: lev.induct)
  case (3 x xs y ys)
  then show ?case by (simp add: min_def)
qed simp_all

lemma lev_triangle: "lev a c \<le> lev a b + lev b c"
proof (induction "length a + length b + length c" arbitrary: a b c rule: less_induct)
  case less
  show ?case
  proof (cases a)
    case Nil
    then show ?thesis using length_le_lev [of c b] by simp
  next
    case a: (Cons x a')
    show ?thesis
    proof (cases b)
      case Nil
      then show ?thesis using lev_length_le [of a c] by simp
    next
      case b: (Cons y b')
      show ?thesis
      proof (cases c)
        case Nil
        then show ?thesis using length_le_lev [of a b] by (simp add: lev_sym [of a b])
      next
        case c: (Cons z c')
        have del: "lev a c \<le> lev a' c + 1"
          unfolding a by (rule lev_Cons1_le)
        have ins: "lev a c \<le> lev a c' + 1"
          unfolding c by (rule lev_Cons2_le)
        have sub: "lev a c \<le> lev a' c' + (if x = z then 0 else 1)"
          unfolding a c by (rule lev_Cons_Cons_le)
        have ih1: "lev a' c \<le> lev a' b + lev b c"
          by (rule less) (simp add: a)
        have ih2: "lev a c' \<le> lev a b + lev b c'"
          by (rule less) (simp add: c)
        have ih3: "lev a c \<le> lev a b' + lev b' c"
          by (rule less) (simp add: b)
        have ih4: "lev a c' \<le> lev a b' + lev b' c'"
          by (rule less) (simp add: b c)
        have ih5: "lev a' c \<le> lev a' b' + lev b' c"
          by (rule less) (simp add: a b)
        have ih6: "lev a' c' \<le> lev a' b' + lev b' c'"
          by (rule less) (simp add: a b c)
        have ab: "lev a b = lev a' b + 1 \<or> lev a b = lev a b' + 1
                    \<or> lev a b = lev a' b' + (if x = y then 0 else 1)"
          unfolding a b by (simp add: min_def)
        have bc: "lev b c = lev b' c + 1 \<or> lev b c = lev b c' + 1
                    \<or> lev b c = lev b' c' + (if y = z then 0 else 1)"
          unfolding b c by (simp add: min_def)
        from ab bc del ins sub ih1 ih2 ih3 ih4 ih5 ih6 show ?thesis
          by (auto split: if_splits)
      qed
    qed
  qed
qed

subsection \<open>The loop invariant\<close>

lemma prefix_lev_0_left: "c \<le> length target \<Longrightarrow> prefix_lev source target 0 c = int c"
  by (simp add: prefix_lev_def)

lemma prefix_lev_0_right: "r \<le> length source \<Longrightarrow> prefix_lev source target r 0 = int r"
  by (simp add: prefix_lev_def)

lemma prefix_lev_Suc:
  assumes "i < length source" "j < length target"
  shows "prefix_lev source target (Suc i) (Suc j) =
     min (prefix_lev source target i (Suc j) + 1)
       (min (prefix_lev source target (Suc i) j + 1)
            (prefix_lev source target i j + (if source ! i = target ! j then 0 else 1)))"
  using assms by (simp add: prefix_lev_def take_Suc_conv_app_nth min_def)

lemma table_ok_init:
  "table_ok source target
     (set_row (set_col (zeros (length source + 1) (length target + 1)) 0
        (arange 0 (length source + 1))) 0 (arange 0 (length target + 1))) 1 1"
  unfolding table_ok_def
proof (intro conjI allI impI)
  let ?d = "set_row (set_col (zeros (length source + 1) (length target + 1)) 0
        (arange 0 (length source + 1))) 0 (arange 0 (length target + 1))"
  show len: "length ?d = length source + 1"
    by (simp add: set_row_def set_col_def zeros_def arange_def)
  have row0: "?d ! 0 = arange 0 (length target + 1)"
    by (simp add: set_row_def set_col_def zeros_def arange_def)
  have rowr: "?d ! r = (replicate (length target + 1) 0)[0 := int r]"
    if "0 < r" "r \<le> length source" for r
    using that by (simp add: set_row_def set_col_def zeros_def arange_def del: upt_Suc replicate_Suc)
  show "length (?d ! r) = length target + 1" if "r \<le> length source" for r
    using that row0 rowr [of r] by (cases "r = 0") (simp_all add: arange_def)
  show c0: "?d ! r ! 0 = int r" if "r \<le> length source" for r
    using that row0 rowr [of r] by (cases "r = 0") (simp_all add: arange_def del: upt_Suc)
  show "?d ! r ! c = prefix_lev source target r c" if "r < 1" "c \<le> length target" for r c
    using that row0 by (simp add: arange_def prefix_lev_0_left del: upt_Suc)
  show "?d ! 1 ! c = prefix_lev source target 1 c" if "c < 1" "1 \<le> length source" for c
    using that c0 [of 1] by (simp add: prefix_lev_0_right)
qed

lemma table_ok_cell:
  assumes ok: "table_ok source target d i j"
    and i: "1 \<le> i" "i \<le> length source" and j: "1 \<le> j" "j \<le> length target"
  shows "table_ok source target (cell_update source target i j d) i (Suc j)"
proof -
  obtain i' j' where [simp]: "i = Suc i'" "j = Suc j'"
    using i j by (metis One_nat_def Suc_le_D)
  have i': "i' < length source" and j': "j' < length target" using i j by simp_all
  from ok have len: "length d = length source + 1"
    and rows: "\<And>r. r \<le> length source \<Longrightarrow> length (d ! r) = length target + 1"
    and col0: "\<And>r. r \<le> length source \<Longrightarrow> d ! r ! 0 = int r"
    and above: "\<And>r c. r < i \<Longrightarrow> c \<le> length target \<Longrightarrow> d ! r ! c = prefix_lev source target r c"
    and left: "\<And>c. c < j \<Longrightarrow> d ! i ! c = prefix_lev source target i c"
    using i by (auto simp: table_ok_def)
  define v where "v = prefix_lev source target i j"
  have upd: "cell_update source target i j d = d[i := (d ! i)[j := v]]"
    using above [of i' j] above [of i' j'] left [of j'] i' j'
    by (simp add: cell_update_def v_def prefix_lev_Suc Let_def)
  show ?thesis
    unfolding upd table_ok_def
  proof (intro conjI allI impI)
    show "length (d[i := (d ! i)[j := v]]) = length source + 1" using len by simp
    show "length (d[i := (d ! i)[j := v]] ! r) = length target + 1" if "r \<le> length source" for r
      using that rows [of r] len by (cases "r = i") simp_all
    show "d[i := (d ! i)[j := v]] ! r ! 0 = int r" if "r \<le> length source" for r
      using that col0 [of r] len rows [of r] by (cases "r = i") simp_all
    show "d[i := (d ! i)[j := v]] ! r ! c = prefix_lev source target r c"
      if "r < i" "c \<le> length target" for r c
      using that above [of r c] len i by simp
    show "d[i := (d ! i)[j := v]] ! i ! c = prefix_lev source target i c"
      if "c < Suc j" for c
    proof (cases "c = j")
      case True
      then show ?thesis using len i rows [of i] j by (simp add: v_def)
    next
      case False
      with that have "c < j" by simp
      then show ?thesis using left [of c] len i rows [of i] False by simp
    qed
  qed
qed

lemma table_ok_fill_upto:
  assumes ok: "table_ok source target d i 1"
    and i: "1 \<le> i" "i \<le> length source" and k: "k \<le> length target"
  shows "table_ok source target (fold (cell_update source target i) [1..<k + 1] d) i (k + 1)"
  using k
proof (induction k)
  case 0
  then show ?case using ok by simp
next
  case (Suc k)
  then have "table_ok source target (fold (cell_update source target i) [1..<k + 1] d) i (k + 1)"
    by simp
  then have "table_ok source target
      (cell_update source target i (k + 1) (fold (cell_update source target i) [1..<k + 1] d))
      i (Suc (k + 1))"
    using i Suc.prems by (intro table_ok_cell) simp_all
  then show ?case by simp
qed

lemma table_ok_next_row:
  assumes ok: "table_ok source target d i (length target + 1)" and i: "i \<le> length source"
  shows "table_ok source target d (i + 1) 1"
  unfolding table_ok_def
proof (intro conjI allI impI)
  from ok show "length d = length source + 1"
    and "\<And>r. r \<le> length source \<Longrightarrow> length (d ! r) = length target + 1"
    and col0: "\<And>r. r \<le> length source \<Longrightarrow> d ! r ! 0 = int r"
    by (simp_all add: table_ok_def)
  show "d ! r ! c = prefix_lev source target r c" if "r < i + 1" "c \<le> length target" for r c
  proof (cases "r = i")
    case True
    with ok i that show ?thesis by (simp add: table_ok_def)
  next
    case False
    with that have "r < i" by simp
    with ok that show ?thesis by (simp add: table_ok_def)
  qed
  show "d ! (i + 1) ! c = prefix_lev source target (i + 1) c"
    if "c < 1" "i + 1 \<le> length source" for c
    using that col0 [of "i + 1"] by (simp add: prefix_lev_0_right)
qed

lemma table_ok_fill_row:
  assumes "table_ok source target d i 1" "1 \<le> i" "i \<le> length source"
  shows "table_ok source target (fill_row source target i d) (i + 1) 1"
  unfolding fill_row_def
  using table_ok_fill_upto [OF assms order_refl] assms(3) by (rule table_ok_next_row)

lemma table_ok_rows_upto:
  assumes ok: "table_ok source target d 1 1" and k: "k \<le> length source"
  shows "table_ok source target (fold (fill_row source target) [1..<k + 1] d) (k + 1) 1"
  using k
proof (induction k)
  case 0
  then show ?case using ok by simp
next
  case (Suc k)
  then have "table_ok source target (fold (fill_row source target) [1..<k + 1] d) (k + 1) 1"
    by simp
  then have "table_ok source target
      (fill_row source target (k + 1) (fold (fill_row source target) [1..<k + 1] d)) (k + 1 + 1) 1"
    using Suc.prems by (intro table_ok_fill_row) simp_all
  then show ?case by simp
qed

lemma editdistance_eval_lev: "editdistance_eval source target = int (lev (rev source) (rev target))"
proof -
  let ?d = "fold (fill_row source target) [1..<length source + 1]
     (set_row (set_col (zeros (length source + 1) (length target + 1)) 0
        (arange 0 (length source + 1))) 0 (arange 0 (length target + 1)))"
  have "table_ok source target ?d (length source + 1) 1"
    by (rule table_ok_rows_upto [OF table_ok_init order_refl])
  then have "?d ! length source ! length target = prefix_lev source target (length source) (length target)"
    by (simp add: table_ok_def)
  then show ?thesis
    by (simp add: editdistance_eval_def Let_def prefix_lev_def)
qed

section \<open>Strings and exceptions of the decoder\<close>

subsection \<open>Joining what was split\<close>

lemma split_on_not_Nil: "split_on sep cur s \<noteq> []"
  by (induction s arbitrary: cur) simp_all

lemma join_Cons: "ws \<noteq> [] \<Longrightarrow> join sep (w # ws) = w @ sep @ join sep ws"
  by (cases ws) simp_all

lemma join_split_on: "join [sep] (split_on sep cur s) = cur @ s"
  by (induction s arbitrary: cur) (simp_all add: join_Cons split_on_not_Nil)

lemma join_split_sep: "join [sep] (split_sep s sep) = s"
  by (simp add: split_sep_def join_split_on)

subsection \<open>The exceptions of the decoder\<close>
















section \<open>The claims\<close>

text \<open>
  C1. The claim: every pair adds the number of words of the reference target to the
  cumulative word count. \<^verbatim>\<open>update\<close> passes the decoded prediction as
  \<^verbatim>\<open>annotation\<close>, whose words are counted: for the prediction \<open>a b\<close> and the target
  \<open>a\<close> the count grows by 2, not by 1.
\<close>

theorem update_counts_prediction_words:
  "decode_logits (map one_hot [7, 4, 24]) = Inr ''a b'' \<and>
   split_ws ''a'' = [''a''] \<and>
   update init [map one_hot [7, 4, 24]] [''a''] =
     (None, \<lparr>sum_score = NpInt 1, sum_words = 2, cur_score = Float (1 / 2)\<rparr>)"
  by code_simp

text \<open>
  C2. In every state of the accumulator \<^verbatim>\<open>avg_value\<close> raises nothing, and returns
  the quotient of the cumulative cost by the cumulative word count, or the integer 0
  when the word count is 0.
\<close>

theorem avg_value_quotient:
  "avg_value s =
     Inr [''WER'' \<mapsto>
       (if sum_words s = 0 then IntVal 0
        else Float (of_int (int_of (sum_score s)) / of_int (sum_words s)))]"
  by (cases "sum_score s") (simp_all add: avg_value_def name_def py_truediv_def np_truediv_def)

theorem avg_value_quotient_witness:
  "avg_value \<lparr>sum_score = NpInt 1, sum_words = 5, cur_score = Float 0\<rparr> =
     Inr [''WER'' \<mapsto> Float (1 / 5)] \<and>
   avg_value \<lparr>sum_score = NpInt 2, sum_words = 0, cur_score = PosInf\<rparr> =
     Inr [''WER'' \<mapsto> IntVal 0]"
  using avg_value_quotient [of "\<lparr>sum_score = NpInt 1, sum_words = 5, cur_score = Float 0\<rparr>"]
    avg_value_quotient [of "\<lparr>sum_score = NpInt 2, sum_words = 0, cur_score = PosInf\<rparr>"]
  by simp




text \<open>
  C4. The claim: \<^verbatim>\<open>decode_logits\<close> collapses every run of spaces into one space.
  The code splits the string at every single space and joins the fields with a space,
  which gives the string back: the symbols \<open>a | <pad> | b\<close> decode to \<open>a\<close>, two
  spaces, \<open>b\<close>.
\<close>

theorem decode_logits_keeps_double_space:
  "decode_logits (map one_hot [7, 4, 0, 4, 24]) = Inr ''a  b''"
  by code_simp

text \<open>
  C5. The claim: for a target without words the recorded current value is 0. The
  guard against the empty word count is on the returned result only; the assignment
  to \<^verbatim>\<open>_cur_score\<close> divides unguarded, and NumPy's division of 0 by 0 is NaN.
\<close>

theorem update_empty_target_records_nan:
  "decode_logits (map one_hot [0, 0]) = Inr [] \<and>
   update init [map one_hot [0, 0]] [[]] =
     (None, \<lparr>sum_score = NpInt 0, sum_words = 0, cur_score = NaN\<rparr>) \<and>
   value_prop (snd (update init [map one_hot [0, 0]] [[]])) ''WER'' = Some NaN"
  by code_simp

text \<open>
  C6. \<^verbatim>\<open>reset\<close> sets both cumulative counters to zero and keeps the current value:
  afterwards \<^verbatim>\<open>avg_value\<close> returns 0 and \<^verbatim>\<open>value\<close> returns what it returned before.
\<close>

theorem reset_zeroes_counters:
  "sum_score (reset s) = PyInt 0 \<and> sum_words (reset s) = 0 \<and>
   cur_score (reset s) = cur_score s \<and>
   avg_value (reset s) = Inr [''WER'' \<mapsto> IntVal 0] \<and>
   value_prop (reset s) = value_prop s"
  by (simp add: reset_def avg_value_def value_prop_def name_def)

text \<open>C7. The edit distance of the table is symmetric.\<close>

theorem editdistance_eval_sym: "editdistance_eval a b = editdistance_eval b a"
  by (simp add: editdistance_eval_lev lev_sym [of "rev a"])

text \<open>C8. The edit distance of the table satisfies the triangle inequality.\<close>

theorem editdistance_eval_triangle:
  "editdistance_eval a c \<le> editdistance_eval a b + editdistance_eval b c"
  using lev_triangle [of "rev a" "rev c" "rev b"] by (simp add: editdistance_eval_lev)

text \<open>
  C9. When the two sequences differ in length, \<^verbatim>\<open>update\<close> fails and leaves the
  cumulative cost, the cumulative word count and the current value as they were.
\<close>

theorem update_mismatch_atomic:
  assumes "length output \<noteq> length target"
  shows "fst (update s output target) \<noteq> None \<and> snd (update s output target) = s"
  using assms by (simp add: update_def split: sum.splits)

theorem update_mismatch_atomic_witness:
  "length [map one_hot [7, 4, 24]] \<noteq> length ([] :: string list) \<and>
   fst (update init [map one_hot [7, 4, 24]] []) \<noteq> None \<and>
   snd (update init [map one_hot [7, 4, 24]] []) = init"
proof -
  have l: "length [map one_hot [7, 4, 24]] \<noteq> length ([] :: string list)"
    by simp
  from l update_mismatch_atomic [OF l, of init] show ?thesis
    by (rule conjI)
qed

text \<open>
  C10. Two target lists that are equal up to the case of their letters, that is, equal
  once lower-cased, give the same outcome and the same accumulator.
\<close>

theorem update_case_insensitive:
  assumes "map lower target1 = map lower target2"
  shows "update s output target1 = update s output target2"
  unfolding update_def assms by (rule refl)

theorem update_case_insensitive_witness:
  "map lower [''The Cat''] = map lower [''the cAT''] \<and>
   update init [map one_hot [7, 4, 24]] [''The Cat''] =
     update init [map one_hot [7, 4, 24]] [''the cAT'']"
proof -
  have l: "map lower [''The Cat''] = map lower [''the cAT'']"
    by code_simp
  from l update_case_insensitive [OF l, of init] show ?thesis
    by (rule conjI)
qed

end
